theory Spec2Isabelle
  imports Main "HOL-Library.Word"
begin

section \<open>JavaScript values\<close>

text \<open>
  The option values the constructor receives are arbitrary JavaScript values. The model keeps
  the primitive ones: \<open>undefined\<close>, \<open>null\<close>, booleans, numbers and strings. Numbers are
  integers, and \<open>NaN\<close>; \<open>+0\<close> and \<open>-0\<close> are both \<open>JNum 0\<close>. Strings are lists of 8-bit
  characters.
\<close>

datatype jsval =
    JUndefined
  | JNull
  | JBool bool
  | JNum int
  | JNaN
  | JStr string

text \<open>ToBoolean: the falsy values are \<open>undefined\<close>, \<open>null\<close>, \<open>false\<close>, \<open>0\<close>, \<open>NaN\<close> and \<open>''\<close>.\<close>

fun truthy :: "jsval \<Rightarrow> bool" where
  "truthy JUndefined = False"
| "truthy JNull = False"
| "truthy (JBool b) = b"
| "truthy (JNum n) = (n \<noteq> 0)"
| "truthy JNaN = False"
| "truthy (JStr s) = (s \<noteq> [])"

text \<open>\<open>a || b\<close>: the left operand when it is truthy, the right one otherwise.\<close>

definition js_or :: "jsval \<Rightarrow> jsval \<Rightarrow> jsval" where
  "js_or a b = (if truthy a then a else b)"

text \<open>
  ToString, as a template literal \<open>`${v}`\<close> and \<open>startsWith\<close> apply it. The text of a number
  is the runtime's Number::toString (digits, or an exponent for a large number), taken as
  the parameter \<open>n2s\<close>.
\<close>

fun js_toString :: "(int \<Rightarrow> string) \<Rightarrow> jsval \<Rightarrow> string" where
  "js_toString n2s JUndefined = ''undefined''"
| "js_toString n2s JNull = ''null''"
| "js_toString n2s (JBool b) = (if b then ''true'' else ''false'')"
| "js_toString n2s (JNum n) = n2s n"
| "js_toString n2s JNaN = ''NaN''"
| "js_toString n2s (JStr s) = s"

text \<open>
  ToNumber; \<open>None\<close> is \<open>NaN\<close>. The conversion of a string to a number is the runtime's
  StringToNumber, taken as the parameter \<open>s2n\<close>.
\<close>

fun js_toNumber :: "(string \<Rightarrow> int option) \<Rightarrow> jsval \<Rightarrow> int option" where
  "js_toNumber s2n JUndefined = None"
| "js_toNumber s2n JNull = Some 0"
| "js_toNumber s2n (JBool b) = Some (if b then 1 else 0)"
| "js_toNumber s2n (JNum n) = Some n"
| "js_toNumber s2n JNaN = None"
| "js_toNumber s2n (JStr s) = s2n s"

text \<open>
  \<open>x > y\<close> where \<open>x\<close> is a number: the comparison is numeric, and false when \<open>y\<close>
  converts to \<open>NaN\<close>.
\<close>

definition js_gt :: "(string \<Rightarrow> int option) \<Rightarrow> int \<Rightarrow> jsval \<Rightarrow> bool" where
  "js_gt s2n x y = (case js_toNumber s2n y of None \<Rightarrow> False | Some b \<Rightarrow> x > b)"

text \<open>\<open>String.prototype.startsWith\<close>.\<close>

definition startsWith :: "string \<Rightarrow> string \<Rightarrow> bool" where
  "startsWith s p = (take (length p) s = p)"

section \<open>Errors\<close>

text \<open>
  \<open>Error msg\<close> is \<open>new Error(msg)\<close>, the only error the source constructs itself;
  \<open>TypeError\<close> and \<open>DOMException\<close> are raised by the runtime; the others are whatever
  the network, the file system, a stream or the image codec (sharp) reject with.
\<close>

datatype error =
    Error string
  | TypeError string
  | FetchError string
  | FsError string
  | StreamError string
  | SharpError string
  | DOMException string

section \<open>Options and the constructor\<close>

type_synonym byte = "8 word"
type_synonym bytes = "byte list"

text \<open>The options object; a property that is absent reads as \<open>JUndefined\<close>.\<close>

record options =
  maxWidth :: jsval
  maxHeight :: jsval
  quality :: jsval
  format :: jsval
  skipImageOptimization :: jsval

text \<open>The handler: \<open>this.options\<close>, \<open>this.buffer\<close> and \<open>this.mimeType\<close>; \<open>None\<close> is \<open>null\<close>.\<close>

record handler =
  options :: options
  buffer :: "bytes option"
  mimeType :: "string option"

text \<open>\<open>constructor(options = {})\<close>, lines 16 to 26; \<open>given\<close> is its argument.\<close>

definition FileHandler :: "options \<Rightarrow> handler" where
  "FileHandler given =
     \<lparr> options =
         \<lparr> maxWidth = js_or (maxWidth given) (JNum 500),
           maxHeight = js_or (maxHeight given) (JNum 500),
           quality = js_or (quality given) (JNum 90),
           format = js_or (format given) (JStr ''jpeg''),
           skipImageOptimization = js_or (skipImageOptimization given) (JBool False) \<rparr>,
       buffer = None,
       mimeType = None \<rparr>"

section \<open>Collaborators\<close>

text \<open>What \<open>sharp(buffer).metadata()\<close> resolves to: the fields the source reads.\<close>

record metadata =
  width :: int
  height :: int
  format :: string

text \<open>
  A sharp instance: the input buffer and the operations requested on it so far.
  \<open>resize_op\<close> holds the arguments of \<open>resize(width, height, {fit, withoutEnlargement})\<close>,
  \<open>toFormat_op\<close> those of \<open>toFormat(format, {quality})\<close>.
\<close>

record sharp =
  input :: bytes
  resize_op :: "(jsval \<times> jsval \<times> string \<times> bool) option"
  toFormat_op :: "(jsval \<times> jsval) option"

text \<open>
  The collaborators of the pipeline, as parameters: \<open>fetch\<close> gives the body of the response
  and its \<open>content-type\<close> header (\<open>None\<close> when the header is absent), \<open>readFile\<close> is
  \<open>fs.readFile\<close>, \<open>mime_lookup\<close> is \<open>mime.lookup\<close> (\<open>None\<close> for its \<open>false\<close>), the
  \<open>sharp_*\<close> fields are the image codec: reading the metadata, the validation of the
  arguments of \<open>resize\<close> and \<open>toFormat\<close> (\<open>Some e\<close> when sharp throws), and the encoding
  of an instance by \<open>toBuffer\<close>. \<open>StringToNumber\<close> and \<open>NumberToString\<close> are the runtime's
  conversions between numbers and strings.
\<close>

record env =
  fetch :: "string \<Rightarrow> error + (bytes \<times> string option)"
  readFile :: "string \<Rightarrow> error + bytes"
  mime_lookup :: "string \<Rightarrow> string option"
  sharp_metadata :: "bytes \<Rightarrow> error + metadata"
  sharp_resize_check :: "jsval \<Rightarrow> jsval \<Rightarrow> error option"
  sharp_toFormat_check :: "jsval \<Rightarrow> jsval \<Rightarrow> error option"
  sharp_toBuffer :: "sharp \<Rightarrow> error + bytes"
  StringToNumber :: "string \<Rightarrow> int option"
  NumberToString :: "int \<Rightarrow> string"

definition sharp_new :: "bytes \<Rightarrow> sharp" where
  "sharp_new b = \<lparr> input = b, resize_op = None, toFormat_op = None \<rparr>"

definition resize :: "env \<Rightarrow> sharp \<Rightarrow> jsval \<Rightarrow> jsval \<Rightarrow> string \<Rightarrow> bool \<Rightarrow> error + sharp" where
  "resize e sh w h fit we =
     (case sharp_resize_check e w h of
        Some err \<Rightarrow> Inl err
      | None \<Rightarrow> Inr (sh\<lparr>resize_op := Some (w, h, fit, we)\<rparr>))"

definition toFormat :: "env \<Rightarrow> sharp \<Rightarrow> jsval \<Rightarrow> jsval \<Rightarrow> error + sharp" where
  "toFormat e sh f q =
     (case sharp_toFormat_check e f q of
        Some err \<Rightarrow> Inl err
      | None \<Rightarrow> Inr (sh\<lparr>toFormat_op := Some (f, q)\<rparr>))"

section \<open>Inputs\<close>

text \<open>
  What iterating a \<open>Readable\<close> yields: chunks, then the end of the stream or an error.
  A chunk is a buffer, or something \<open>Buffer.concat\<close> rejects (a string of a stream with an
  encoding, an object of a stream in object mode).
\<close>

datatype chunk = Bytes bytes | NotBytes

datatype readable = End | Fail error | Chunk chunk readable

text \<open>A value that is no string, \<open>Buffer\<close>, \<open>Readable\<close> or \<open>Blob\<close>.\<close>

datatype other = Undefined | Null | Boolean bool | Number int | Object

text \<open>
  The input by the tests of \<open>processInput\<close>: \<open>typeof input === 'string'\<close>,
  \<open>instanceof Buffer\<close>, \<open>instanceof Readable\<close>, \<open>instanceof Blob\<close> (its bytes and its
  \<open>type\<close>, \<open>''\<close> when it has none), anything else.
\<close>

datatype input =
    String string
  | Buffer bytes
  | Readable readable
  | Blob bytes string
  | Other other

text \<open>\<open>for await (const chunk of input) chunks.push(chunk)\<close>, lines 60 to 63.\<close>

fun drain :: "readable \<Rightarrow> chunk list \<Rightarrow> error + chunk list" where
  "drain End chunks = Inr chunks"
| "drain (Fail e) chunks = Inl e"
| "drain (Chunk c r) chunks = drain r (chunks @ [c])"

text \<open>\<open>Buffer.concat\<close>: a \<open>TypeError\<close> on an element that is no buffer.\<close>

fun Buffer_concat :: "chunk list \<Rightarrow> error + bytes" where
  "Buffer_concat [] = Inr []"
| "Buffer_concat (NotBytes # cs) =
     Inl (TypeError ''The list argument must be an instance of Buffer or Uint8Array'')"
| "Buffer_concat (Bytes b # cs) =
     (case Buffer_concat cs of Inl e \<Rightarrow> Inl e | Inr bs \<Rightarrow> Inr (b @ bs))"

section \<open>The pipeline\<close>

text \<open>\<open>try { body } catch { handler }\<close>.\<close>

definition try_catch :: "(error + 'a) \<Rightarrow> (error + 'a) \<Rightarrow> error + 'a" where
  "try_catch body handler = (case body of Inl _ \<Rightarrow> handler | Inr v \<Rightarrow> Inr v)"

text \<open>\<open>static async detectMimeType(buffer)\<close>, lines 111 to 120.\<close>

definition detectMimeType :: "env \<Rightarrow> bytes \<Rightarrow> error + string" where
  "detectMimeType e b =
     try_catch
       (case sharp_metadata e b of
          Inl err \<Rightarrow> Inl err
        | Inr md \<Rightarrow> Inr (''image/'' @ metadata.format md))
       (Inr ''application/octet-stream'')"

text \<open>\<open>isImage()\<close>, lines 35 to 37: \<open>this.mimeType?.startsWith('image/')\<close>.\<close>

definition isImage :: "handler \<Rightarrow> jsval" where
  "isImage h =
     (case mimeType h of
        None \<Rightarrow> JUndefined
      | Some s \<Rightarrow> JBool (startsWith s ''image/''))"

text \<open>
  The first part of \<open>processInput\<close>, lines 40 to 72: the bytes and the type of the input.
  \<open>x || 'application/octet-stream'\<close> replaces \<open>false\<close> and the empty string.
\<close>

definition resolveInput :: "env \<Rightarrow> input \<Rightarrow> error + (bytes \<times> string option)" where
  "resolveInput e inp =
     (case inp of
        String s \<Rightarrow>
          if startsWith s ''http://'' \<or> startsWith s ''https://'' then
            (case fetch e s of
               Inl err \<Rightarrow> Inl err
             | Inr (body, content_type) \<Rightarrow> Inr (body, content_type))
          else
            (case readFile e s of
               Inl err \<Rightarrow> Inl err
             | Inr b \<Rightarrow>
                 Inr (b, Some (case mime_lookup e s of
                                 None \<Rightarrow> ''application/octet-stream''
                               | Some t \<Rightarrow> if t = [] then ''application/octet-stream'' else t)))
      | Buffer b \<Rightarrow>
          (case detectMimeType e b of
             Inl err \<Rightarrow> Inl err
           | Inr t \<Rightarrow> Inr (b, Some t))
      | Readable r \<Rightarrow>
          (case drain r [] of
             Inl err \<Rightarrow> Inl err
           | Inr chunks \<Rightarrow>
               (case Buffer_concat chunks of
                  Inl err \<Rightarrow> Inl err
                | Inr b \<Rightarrow>
                    (case detectMimeType e b of
                       Inl err \<Rightarrow> Inl err
                     | Inr t \<Rightarrow> Inr (b, Some t))))
      | Blob b t \<Rightarrow> Inr (b, Some (if t = [] then ''application/octet-stream'' else t))
      | Other v \<Rightarrow> Inl (Error ''Unsupported input format''))"

text \<open>\<open>async optimizeImage(buffer)\<close>, lines 86 to 109.\<close>

definition optimizeImage :: "env \<Rightarrow> handler \<Rightarrow> bytes \<Rightarrow> error + handler" where
  "optimizeImage e h b =
     (let image0 = sharp_new b in
      case sharp_metadata e b of
        Inl err \<Rightarrow> Inl err
      | Inr md \<Rightarrow>
          (case (if js_gt (StringToNumber e) (width md) (maxWidth (options h)) \<or>
                    js_gt (StringToNumber e) (height md) (maxHeight (options h))
                 then resize e image0 (maxWidth (options h)) (maxHeight (options h)) ''inside'' True
                 else Inr image0) of
             Inl err \<Rightarrow> Inl err
           | Inr image1 \<Rightarrow>
               (case toFormat e image1 (options.format (options h)) (quality (options h)) of
                  Inl err \<Rightarrow> Inl err
                | Inr img \<Rightarrow>
                    (case sharp_toBuffer e img of
                       Inl err \<Rightarrow> Inl err
                     | Inr out \<Rightarrow>
                         Inr (h\<lparr> buffer := Some out,
                                 mimeType := Some (''image/'' @
                                   js_toString (NumberToString e) (options.format (options h))) \<rparr>)))))"

text \<open>\<open>async processInput(input)\<close>, lines 39 to 84.\<close>

definition processInput :: "env \<Rightarrow> handler \<Rightarrow> input \<Rightarrow> error + handler" where
  "processInput e h inp =
     (case resolveInput e inp of
        Inl err \<Rightarrow> Inl err
      | Inr (b, t) \<Rightarrow>
          (let h' = h\<lparr>mimeType := t\<rparr> in
           if truthy (isImage h') \<and> \<not> truthy (skipImageOptimization (options h'))
           then optimizeImage e h' b
           else Inr (h'\<lparr>buffer := Some b\<rparr>)))"

text \<open>
  \<open>static async handle(input, options = {})\<close>, lines 28 to 33. The handler is kept in the
  static field \<open>FileHandler.handler\<close>: line 29 assigns the new handler to the field, line
  30 calls \<open>processInput\<close> on the handler the field then holds, which is that new one, and
  waits, and line 32 returns the handler the field holds when the call goes on. While the
  call waits, another call of \<open>handle\<close> can assign the field. \<open>static_field\<close> is what the
  field holds when the call goes on: still the handler of this call, or the handler of a
  later call, in the state it is in at that moment. An error of \<open>processInput\<close> is
  thrown at line 30, whatever the field holds.
\<close>

datatype static_field = Own_handler | Handler_of_later_call handler

definition handle :: "env \<Rightarrow> input \<Rightarrow> options \<Rightarrow> static_field \<Rightarrow> error + handler" where
  "handle e inp given field =
     (case processInput e (FileHandler given) inp of
        Inl err \<Rightarrow> Inl err
      | Inr own \<Rightarrow>
          (case field of
             Own_handler \<Rightarrow> Inr own
           | Handler_of_later_call other \<Rightarrow> Inr other))"


section \<open>Base64\<close>

text \<open>
  \<open>Buffer.prototype.toString('base64')\<close> and \<open>btoa\<close> encode by RFC 4648: three bytes give
  four characters of the alphabet \<open>A-Z a-z 0-9 + /\<close>, and the last group is padded with
  \<open>=\<close>. \<open>b64_char\<close> is the alphabet, \<open>sextets\<close> cuts the bytes into 6-bit values.
\<close>

definition b64_char :: "nat \<Rightarrow> char" where
  "b64_char n =
     (if n < 26 then char_of (65 + n)
      else if n < 52 then char_of (71 + n)
      else if n < 62 then char_of (n - 4)
      else if n = 62 then CHR ''+''
      else CHR ''/'')"

fun sextets :: "bytes \<Rightarrow> nat list" where
  "sextets [] = []"
| "sextets [a] = [unat a div 4, (unat a mod 4) * 16]"
| "sextets [a, b] = [unat a div 4, (unat a mod 4) * 16 + unat b div 16, (unat b mod 16) * 4]"
| "sextets (a # b # c # bs) =
     [unat a div 4, (unat a mod 4) * 16 + unat b div 16, (unat b mod 16) * 4 + unat c div 64,
      unat c mod 64] @ sextets bs"

definition base64 :: "bytes \<Rightarrow> string" where
  "base64 bs = map b64_char (sextets bs) @ replicate ((3 - length bs mod 3) mod 3) CHR ''=''"

text \<open>
  \<open>atob\<close> is the forgiving-base64 decode of the WHATWG Infra standard: ASCII whitespace is
  removed; when the length is then a multiple of 4, one or two \<open>=\<close> at the end are removed;
  a length of 1 modulo 4 or a character outside the alphabet is a failure; the bits left
  over at the end are dropped. The result of \<open>atob\<close> is a string of the decoded bytes.
\<close>

definition b64_value :: "char \<Rightarrow> nat option" where
  "b64_value c =
     (let n = (of_char c :: nat) in
      if 65 \<le> n \<and> n \<le> 90 then Some (n - 65)
      else if 97 \<le> n \<and> n \<le> 122 then Some (n - 71)
      else if 48 \<le> n \<and> n \<le> 57 then Some (n + 4)
      else if c = CHR ''+'' then Some 62
      else if c = CHR ''/'' then Some 63
      else None)"

fun bytes_of_sextets :: "nat list \<Rightarrow> bytes" where
  "bytes_of_sextets (s1 # s2 # s3 # s4 # ss) =
     [of_nat (s1 * 4 + s2 div 16), of_nat ((s2 mod 16) * 16 + s3 div 4),
      of_nat ((s3 mod 4) * 64 + s4)] @ bytes_of_sextets ss"
| "bytes_of_sextets [s1, s2, s3] =
     [of_nat (s1 * 4 + s2 div 16), of_nat ((s2 mod 16) * 16 + s3 div 4)]"
| "bytes_of_sextets [s1, s2] = [of_nat (s1 * 4 + s2 div 16)]"
| "bytes_of_sextets _ = []"

definition is_ascii_whitespace :: "char \<Rightarrow> bool" where
  "is_ascii_whitespace c = ((of_char c :: nat) \<in> {9, 10, 12, 13, 32})"

definition strip_padding :: "string \<Rightarrow> string" where
  "strip_padding d =
     (let r = rev d in
      if take 2 r = ''=='' then rev (drop 2 r)
      else if take 1 r = ''='' then rev (drop 1 r)
      else d)"

definition forgiving_base64_decode :: "string \<Rightarrow> bytes option" where
  "forgiving_base64_decode s =
     (let d = filter (\<lambda>c. \<not> is_ascii_whitespace c) s;
          d' = (if length d mod 4 = 0 then strip_padding d else d)
      in if length d' mod 4 = 1 then None
         else (case those (map b64_value d') of
                 None \<Rightarrow> None
               | Some ss \<Rightarrow> Some (bytes_of_sextets ss)))"

definition atob :: "string \<Rightarrow> error + string" where
  "atob s =
     (case forgiving_base64_decode s of
        None \<Rightarrow> Inl (DOMException ''InvalidCharacterError'')
      | Some bs \<Rightarrow> Inr (map (\<lambda>b. char_of (unat b)) bs))"

text \<open>\<open>btoa\<close> throws on a character above 255 only, and an 8-bit character never is.\<close>

definition btoa :: "string \<Rightarrow> error + string" where
  "btoa s = Inr (base64 (map (\<lambda>c. of_nat (of_char c)) s))"

section \<open>Regular expressions\<close>

text \<open>
  The two regular expressions of the source, as terms, and a backtracking matcher for them.
  A class \<open>[...]\<close> is a list of characters and ranges; \<open>Repeat n r\<close> is \<open>r{n}\<close>;
  \<open>Group k r\<close> is the \<open>k\<close>-th capturing group; a group \<open>(?:...)\<close> that captures nothing is
  plain nesting.
\<close>

datatype cls = Single char | Range char char

fun in_cls :: "char \<Rightarrow> cls \<Rightarrow> bool" where
  "in_cls c (Single x) = (c = x)"
| "in_cls c (Range lo hi) = ((of_char lo :: nat) \<le> of_char c \<and> (of_char c :: nat) \<le> of_char hi)"

datatype regex =
    Lit string
  | Class "cls list"
  | NotClass "cls list"
  | Seq regex regex
  | Alt regex regex
  | Opt regex
  | Star regex
  | Plus regex
  | Repeat nat regex
  | Group nat regex

text \<open>
  A state of the matcher is the input still to read and the captures made so far, the
  latest first. \<open>rmatch r st\<close> lists the states in which a match of \<open>r\<close> from \<open>st\<close> can end,
  in the order in which backtracking tries them: the left alternative first, the longer
  repetition first. An iteration of \<open>*\<close> or \<open>+\<close> that reads nothing is not taken, so the
  length of the input bounds the number of iterations.
\<close>

type_synonym mstate = "string \<times> (nat \<times> string) list"

primrec star :: "nat \<Rightarrow> (mstate \<Rightarrow> mstate list) \<Rightarrow> mstate \<Rightarrow> mstate list" where
  "star 0 f st = [st]"
| "star (Suc n) f st =
     concat (map (star n f) (filter (\<lambda>st'. length (fst st') < length (fst st)) (f st))) @ [st]"

primrec rep :: "nat \<Rightarrow> (mstate \<Rightarrow> mstate list) \<Rightarrow> mstate \<Rightarrow> mstate list" where
  "rep 0 f st = [st]"
| "rep (Suc n) f st = concat (map (rep n f) (f st))"

primrec rmatch :: "regex \<Rightarrow> mstate \<Rightarrow> mstate list" where
  "rmatch (Lit p) = (\<lambda>st. if startsWith (fst st) p then [(drop (length p) (fst st), snd st)] else [])"
| "rmatch (Class items) =
     (\<lambda>st. case fst st of [] \<Rightarrow> [] | c # cs \<Rightarrow> if list_ex (in_cls c) items then [(cs, snd st)] else [])"
| "rmatch (NotClass items) =
     (\<lambda>st. case fst st of [] \<Rightarrow> [] | c # cs \<Rightarrow> if list_ex (in_cls c) items then [] else [(cs, snd st)])"
| "rmatch (Seq r1 r2) = (\<lambda>st. concat (map (rmatch r2) (rmatch r1 st)))"
| "rmatch (Alt r1 r2) = (\<lambda>st. rmatch r1 st @ rmatch r2 st)"
| "rmatch (Opt r) = (\<lambda>st. rmatch r st @ [st])"
| "rmatch (Star r) = (\<lambda>st. star (length (fst st)) (rmatch r) st)"
| "rmatch (Plus r) = (\<lambda>st. concat (map (\<lambda>st'. star (length (fst st')) (rmatch r) st') (rmatch r st)))"
| "rmatch (Repeat n r) = rep n (rmatch r)"
| "rmatch (Group k r) =
     (\<lambda>st. map (\<lambda>st'. (fst st', (k, take (length (fst st) - length (fst st')) (fst st)) # snd st'))
              (rmatch r st))"

text \<open>
  A match of \<open>/^r$/\<close>: the first way to match \<open>r\<close> that reads the whole string, with its
  captures; \<open>None\<close> is the \<open>null\<close> of \<open>String.prototype.match\<close>.
\<close>

definition regex_exec :: "regex \<Rightarrow> string \<Rightarrow> (nat \<times> string) list option" where
  "regex_exec r s =
     (case filter (\<lambda>st. fst st = []) (rmatch r (s, [])) of
        [] \<Rightarrow> None
      | st # _ \<Rightarrow> Some (snd st))"

definition regex_test :: "regex \<Rightarrow> string \<Rightarrow> bool" where
  "regex_test r s = (regex_exec r s \<noteq> None)"

text \<open>\<open>[A-Za-z0-9+/]\<close>.\<close>

definition b64_class :: regex where
  "b64_class = Class [Range CHR ''A'' CHR ''Z'', Range CHR ''a'' CHR ''z'', Range CHR ''0'' CHR ''9'',
                      Single CHR ''+'', Single CHR ''/'']"

text \<open>\<open>/^(?:[A-Za-z0-9+/]{4})*(?:[A-Za-z0-9+/]{2}==|[A-Za-z0-9+/]{3}=)?$/\<close>, line 198.\<close>

definition base64Regex :: regex where
  "base64Regex =
     Seq (Star (Repeat 4 b64_class))
         (Opt (Alt (Seq (Repeat 2 b64_class) (Lit ''==''))
                   (Seq (Repeat 3 b64_class) (Lit ''=''))))"

text \<open>\<open>a-zA-Z0-9\<close>, the start of the three classes of the next expression.\<close>

definition alnum :: "cls list" where
  "alnum = [Range CHR ''a'' CHR ''z'', Range CHR ''A'' CHR ''Z'', Range CHR ''0'' CHR ''9'']"

text \<open>
  \<open>/^data:([a-zA-Z0-9]+\/[a-zA-Z0-9\-.+]+)(;[a-zA-Z0-9\-_=.+]+)*;base64,([^"]*)$/\<close>, line 234;
  the character of code \<open>0x22\<close> is the double quote.
\<close>

definition dataURLRegex :: regex where
  "dataURLRegex =
     Seq (Lit ''data:'')
    (Seq (Group 1 (Seq (Plus (Class alnum))
                 (Seq (Lit ''/'')
                      (Plus (Class (alnum @ [Single CHR ''-'', Single CHR ''.'', Single CHR ''+'']))))))
    (Seq (Star (Group 2 (Seq (Lit '';'')
                  (Plus (Class (alnum @ [Single CHR ''-'', Single CHR ''_'', Single CHR ''='',
                                         Single CHR ''.'', Single CHR ''+'']))))))
    (Seq (Lit '';base64,'')
         (Group 3 (Star (NotClass [Single (CHR 0x22)]))))))"

text \<open>A character is in a class when one of the items of the class has it.\<close>

definition in_class :: "cls list \<Rightarrow> char \<Rightarrow> bool" where
  "in_class cs c = list_ex (in_cls c) cs"

text \<open>
  The two parts of \<open>dataURLRegex\<close> after \<open>data:\<close>: group 1, the media type
  \<open>([a-zA-Z0-9]+\/[a-zA-Z0-9\-.+]+)\<close>, and the rest, the parameters, \<open>;base64,\<close> and the
  payload \<open>(;[a-zA-Z0-9\-_=.+]+)*;base64,([^"]*)\<close>.
\<close>

definition media_type :: regex where
  "media_type =
     Group 1 (Seq (Plus (Class alnum))
                 (Seq (Lit ''/'')
                      (Plus (Class (alnum @ [Single CHR ''-'', Single CHR ''.'', Single CHR ''+''])))))"

definition params_tail :: regex where
  "params_tail =
     Seq (Star (Group 2 (Seq (Lit '';'')
                  (Plus (Class (alnum @ [Single CHR ''-'', Single CHR ''_'', Single CHR ''='',
                                         Single CHR ''.'', Single CHR ''+'']))))))
    (Seq (Lit '';base64,'')
         (Group 3 (Star (NotClass [Single (CHR 0x22)]))))"

text \<open>
  \<open>a\<close> and \<open>b\<close> are a type and a subtype as group 1 reads them: one character or more of
  \<open>[a-zA-Z0-9]\<close>, and one character or more of \<open>[a-zA-Z0-9\-.+]\<close>.
\<close>

definition type_subtype :: "string \<Rightarrow> string \<Rightarrow> bool" where
  "type_subtype a b =
     (a \<noteq> [] \<and> b \<noteq> [] \<and> list_all (in_class alnum) a \<and>
      list_all (in_class (alnum @ [Single CHR ''-'', Single CHR ''.'', Single CHR ''+''])) b)"

section \<open>The classifiers\<close>

text \<open>
  \<open>static isBase64(str)\<close>, lines 190 to 217. A value that is no string, and the empty
  string, give \<open>false\<close>; an exception of \<open>atob\<close> or \<open>btoa\<close> is caught and gives \<open>false\<close>.
\<close>

definition isBase64 :: "jsval \<Rightarrow> bool" where
  "isBase64 str =
     (case str of
        JStr s \<Rightarrow>
          if s = [] then False
          else if \<not> regex_test base64Regex s then False
          else (case atob s of
                  Inl _ \<Rightarrow> False
                | Inr decoded \<Rightarrow>
                    (case btoa decoded of
                       Inl _ \<Rightarrow> False
                     | Inr encoded \<Rightarrow>
                         filter (\<lambda>c. c \<noteq> CHR ''='') encoded = filter (\<lambda>c. c \<noteq> CHR ''='') s))
      | _ \<Rightarrow> False)"

text \<open>
  \<open>static isBase64DataURL(str, mimeTypePrefix = null)\<close>, lines 219 to 259. \<open>mt\<close> and
  \<open>base64String\<close> are the groups 1 and 3 of the match; the test of the prefix is outside
  the \<open>try\<close>, so reading a group that is \<open>undefined\<close> would throw. \<open>n2s\<close> is the
  runtime's Number::toString, for a prefix that is a number.
\<close>

definition isBase64DataURL :: "(int \<Rightarrow> string) \<Rightarrow> jsval \<Rightarrow> jsval \<Rightarrow> error + bool" where
  "isBase64DataURL n2s str mimeTypePrefix =
     (case str of
        JStr s \<Rightarrow>
          if s = [] then Inr False
          else if \<not> startsWith s ''data:'' then Inr False
          else (case regex_exec dataURLRegex s of
                  None \<Rightarrow> Inr False
                | Some matches \<Rightarrow>
                    (case (map_of matches 1, map_of matches 3) of
                       (Some mt, Some base64String) \<Rightarrow>
                         if truthy mimeTypePrefix \<and>
                            \<not> startsWith mt (js_toString n2s mimeTypePrefix)
                         then Inr False
                         else (case atob base64String of
                                 Inl _ \<Rightarrow> Inr False
                               | Inr decoded \<Rightarrow>
                                   (case btoa decoded of
                                      Inl _ \<Rightarrow> Inr False
                                    | Inr encoded \<Rightarrow> Inr (encoded = base64String)))
                     | _ \<Rightarrow> Inl (TypeError ''Cannot read properties of undefined'')))
      | _ \<Rightarrow> Inr False)"

section \<open>Exports\<close>

text \<open>\<open>toBuffer()\<close>, lines 141 to 143.\<close>

definition toBuffer :: "handler \<Rightarrow> bytes option" where
  "toBuffer h = buffer h"

text \<open>
  \<open>toBase64()\<close>, lines 132 to 135, and \<open>toBase64URL()\<close>, lines 127 to 130. On a handler
  whose buffer is still \<open>null\<close> the call of \<open>toString\<close> throws; a \<open>mimeType\<close> that is \<open>null\<close>
  is written as \<open>null\<close> by the template literal.
\<close>

definition toBase64 :: "handler \<Rightarrow> error + string" where
  "toBase64 h =
     (case buffer h of
        None \<Rightarrow> Inl (TypeError ''Cannot read properties of null'')
      | Some b \<Rightarrow> Inr (base64 b))"

definition toBase64URL :: "handler \<Rightarrow> error + string" where
  "toBase64URL h =
     (case buffer h of
        None \<Rightarrow> Inl (TypeError ''Cannot read properties of null'')
      | Some b \<Rightarrow>
          Inr (''data:'' @ (case mimeType h of None \<Rightarrow> ''null'' | Some t \<Rightarrow> t) @ '';base64,'' @ base64 b))"

section \<open>A small environment\<close>

text \<open>
  Decimal digits of an integer: what Number::toString gives for the integers up to
  \<open>2 ^ 53\<close> in absolute value, which is all the small environment is run on.
\<close>

definition digit_char :: "nat \<Rightarrow> char" where
  "digit_char d = char_of (48 + d)"

function string_of_nat :: "nat \<Rightarrow> string" where
  "string_of_nat n =
     (if n < 10 then [digit_char n] else string_of_nat (n div 10) @ [digit_char (n mod 10)])"
  by pat_completeness auto
termination
  by (relation "measure id") auto

definition string_of_int :: "int \<Rightarrow> string" where
  "string_of_int i = (if i < 0 then CHR ''-'' # string_of_nat (nat (- i)) else string_of_nat (nat i))"

text \<open>
  Collaborators to run the pipeline on: a codec that takes the bytes \<open>137, w, h, ...\<close> for
  an image of \<open>w\<close> by \<open>h\<close> pixels in the container \<open>png\<close>, rejects everything else, and
  encodes by putting the byte 255 in front; a server that answers one URL with such an
  image and no \<open>content-type\<close> header; three files.
\<close>

definition toy_metadata :: "bytes \<Rightarrow> error + metadata" where
  "toy_metadata b =
     (case b of
        m # w # h # _ \<Rightarrow>
          if m = 137 then Inr \<lparr> width = uint w, height = uint h, format = ''png'' \<rparr>
          else Inl (SharpError ''Input buffer contains unsupported image format'')
      | _ \<Rightarrow> Inl (SharpError ''Input buffer contains unsupported image format''))"

definition toy_env :: env where
  "toy_env =
     \<lparr> fetch = (\<lambda>u. if u = ''https://example.org/logo'' then Inr ([137, 4, 3], None)
                     else Inl (FetchError ''ENOTFOUND'')),
       readFile = (\<lambda>p. if p = ''broken.png'' then Inr [1, 2, 3]
                        else if p = ''logo.png'' then Inr [137, 4, 3]
                        else if p = ''notes.txt'' then Inr [104, 105]
                        else Inl (FsError ''ENOENT'')),
       mime_lookup = (\<lambda>p. if p = ''broken.png'' \<or> p = ''logo.png'' then Some ''image/png''
                           else if p = ''notes.txt'' then Some ''text/plain'' else None),
       sharp_metadata = toy_metadata,
       sharp_resize_check = (\<lambda>w h. None),
       sharp_toFormat_check = (\<lambda>f q. None),
       sharp_toBuffer = (\<lambda>sh. Inr (255 # input sh)),
       StringToNumber = (\<lambda>s. None),
       NumberToString = string_of_int \<rparr>"

text \<open>The options object \<open>{}\<close>, and the options a handler has after the constructor ran on it.\<close>

definition no_options :: options where
  "no_options = \<lparr> maxWidth = JUndefined, maxHeight = JUndefined, quality = JUndefined,
     format = JUndefined, skipImageOptimization = JUndefined \<rparr>"

definition default_options :: options where
  "default_options = \<lparr> maxWidth = JNum 500, maxHeight = JNum 500, quality = JNum 90,
     format = JStr ''jpeg'', skipImageOptimization = JBool False \<rparr>"

section \<open>Helper lemmas\<close>

lemma js_gt_JNum: "js_gt s2n x (JNum m) = (x > m)"
  by (simp add: js_gt_def)

lemma resolved_skip:
  "\<not> truthy (skipImageOptimization (options (FileHandler given))) \<longleftrightarrow>
   skipImageOptimization (options (FileHandler given)) = JBool False"
  by (cases "skipImageOptimization given") (auto simp: FileHandler_def js_or_def)

lemma optimizeImage_Inr:
  assumes "optimizeImage e h b = Inr h'"
  obtains md img out where
    "sharp_metadata e b = Inr md"
    "sharp_toBuffer e img = Inr out"
    "input img = b"
    "toFormat_op img = Some (options.format (options h), quality (options h))"
    "resize_op img =
       (if js_gt (StringToNumber e) (width md) (maxWidth (options h)) \<or>
           js_gt (StringToNumber e) (height md) (maxHeight (options h))
        then Some (maxWidth (options h), maxHeight (options h), ''inside'', True) else None)"
    "h' = h\<lparr> buffer := Some out,
              mimeType := Some (''image/'' @ js_toString (NumberToString e) (options.format (options h))) \<rparr>"
  using assms
  by (auto simp: optimizeImage_def Let_def sharp_new_def resize_def toFormat_def
           split: sum.splits if_splits option.splits)

subsection \<open>Base64 decodes what it encodes\<close>

lemma b64_value_char: "n < 64 \<Longrightarrow> b64_value (b64_char n) = Some n"
  by (auto simp: b64_value_def b64_char_def Let_def)

lemma b64_char_not_ws: "n < 64 \<Longrightarrow> \<not> is_ascii_whitespace (b64_char n)"
  by (auto simp: is_ascii_whitespace_def b64_char_def)

lemma b64_char_not_pad: "n < 64 \<Longrightarrow> b64_char n \<noteq> CHR ''=''"
  by (auto simp: b64_char_def char_of_eq_iff take_bit_eq_mod)

lemma unat_byte_lt: "unat (a :: byte) < 256"
  using unsigned_less [of a, where 'a = nat] by simp

lemma sextets_lt: "s \<in> set (sextets bs) \<Longrightarrow> s < 64"
proof (induction bs arbitrary: s rule: sextets.induct)
  case 1
  then show ?case by simp
next
  case (2 a)
  then show ?case using unat_byte_lt [of a] by auto
next
  case (3 a b)
  then show ?case using unat_byte_lt [of a] unat_byte_lt [of b] by auto
next
  case (4 a b c bs)
  then show ?case using unat_byte_lt [of a] unat_byte_lt [of b] unat_byte_lt [of c] by auto
qed

lemma first_byte_alone: "(a div 4) * 4 + ((a mod 4) * 16) div 16 = (a::nat)"
  by simp

lemma first_byte: "b < 256 \<Longrightarrow> (a div 4) * 4 + ((a mod 4) * 16 + b div 16) div 16 = (a::nat)"
  by (simp add: div_add1_eq)

lemma low_of_16: "b < 256 \<Longrightarrow> (x * 16 + b div 16) mod 16 = (b div 16 :: nat)"
  by (simp add: less_mult_imp_div_less)

lemma high_of_4: "c < 256 \<Longrightarrow> (x * 4 + c div 64) div 4 = (x :: nat)"
  by (simp add: div_add1_eq less_mult_imp_div_less)

lemma low_of_4: "c < 256 \<Longrightarrow> (x * 4 + c div 64) mod 4 = (c div 64 :: nat)"
  by (simp add: less_mult_imp_div_less)

lemma second_byte:
  "b < 256 \<Longrightarrow> c < 256 \<Longrightarrow>
   (((a mod 4) * 16 + b div 16) mod 16) * 16 + ((b mod 16) * 4 + c div 64) div 4 = (b::nat)"
  by (simp add: low_of_16 high_of_4)

lemma second_byte_last:
  "b < 256 \<Longrightarrow> (((a mod 4) * 16 + b div 16) mod 16) * 16 + ((b mod 16) * 4) div 4 = (b::nat)"
  by (simp add: low_of_16)

lemma third_byte: "c < 256 \<Longrightarrow> (((b mod 16) * 4 + c div 64) mod 4) * 64 + c mod 64 = (c::nat)"
  by (simp add: low_of_4)

lemma bytes_of_sextets_sextets: "bytes_of_sextets (sextets bs) = bs"
proof (induction bs rule: sextets.induct)
  case 1
  show ?case by simp
next
  case (2 a)
  show ?case by (simp add: first_byte_alone)
next
  case (3 a b)
  show ?case using unat_byte_lt [of b] by (simp add: first_byte second_byte_last)
next
  case (4 a b c bs)
  show ?case
    using 4 unat_byte_lt [of b] unat_byte_lt [of c]
    by (simp add: first_byte second_byte third_byte)
qed

lemma length_sextets_mod:
  "(length (sextets bs) + (3 - length bs mod 3) mod 3) mod 4 = 0 \<and>
   length (sextets bs) mod 4 \<noteq> 1"
proof (induction bs rule: sextets.induct)
  case 1
  show ?case by simp
next
  case (2 a)
  show ?case by simp
next
  case (3 a b)
  show ?case by simp
next
  case (4 a b c bs)
  have l3: "length (a # b # c # bs) = length bs + 3"
    by simp
  have l4: "length (sextets (a # b # c # bs)) = length (sextets bs) + 4"
    by simp
  have m3: "(length bs + 3) mod 3 = length bs mod 3"
    by simp
  have m4: "(length (sextets bs) + 4) mod 4 = length (sextets bs) mod 4"
    by simp
  have m4': "(length (sextets bs) + 4 + k) mod 4 = (length (sextets bs) + k) mod 4" for k
    by (metis add.assoc add.commute mod_add_self2)
  show ?case
    unfolding l3 l4 m3 m4 m4' using 4 by blast
qed

lemma length_sextets_pad: "(length (sextets bs) + (3 - length bs mod 3) mod 3) mod 4 = 0"
  using length_sextets_mod [of bs] by blast

lemma length_sextets_not1: "length (map b64_char (sextets bs)) mod 4 \<noteq> 1"
  using length_sextets_mod [of bs] by (simp only: length_map) blast

lemma those_values:
  assumes "\<forall>s\<in>set ss. s < 64"
  shows "those (map b64_value (map b64_char ss)) = Some ss"
  using assms
proof (induction ss)
  case Nil
  show ?case by simp
next
  case (Cons a ss)
  from Cons.prems have a: "b64_value (b64_char a) = Some a"
    by (simp add: b64_value_char)
  from Cons have rest: "those (map b64_value (map b64_char ss)) = Some ss"
    by simp
  have "those (map b64_value (map b64_char (a # ss))) =
        (case b64_value (b64_char a) of None \<Rightarrow> None
         | Some y \<Rightarrow> map_option ((#) y) (those (map b64_value (map b64_char ss))))"
    by (simp only: list.map those.simps)
  then show ?case
    by (simp only: a rest option.case option.map)
qed

lemma strip_padding_pad:
  assumes "k \<le> 2" and "CHR ''='' \<notin> set xs"
  shows "strip_padding (xs @ replicate k CHR ''='') = xs"
proof -
  from assms(2) have r: "CHR ''='' \<notin> set (rev xs)"
    by simp
  have nohd: "take 1 (rev xs) \<noteq> ''=''"
    using r by (cases "rev xs") auto
  have nohd2: "take 2 (rev xs) \<noteq> ''==''"
    using r by (cases "rev xs") auto
  have nohd3: "take 2 (CHR ''='' # rev xs) \<noteq> ''==''"
    using r by (cases "rev xs") auto
  from assms(1) consider "k = 0" | "k = 1" | "k = 2" by linarith
  then show ?thesis
  proof cases
    case 1
    then show ?thesis using nohd nohd2 by (simp add: strip_padding_def Let_def)
  next
    case 2
    then show ?thesis using nohd3 by (simp add: strip_padding_def Let_def)
  next
    case 3
    then show ?thesis by (simp add: strip_padding_def Let_def numeral_2_eq_2)
  qed
qed

lemma base64_decode_encode: "forgiving_base64_decode (base64 bs) = Some bs"
proof -
  let ?body = "map b64_char (sextets bs)"
  have lt: "\<forall>s\<in>set (sextets bs). s < 64"
    using sextets_lt by blast
  have "CHR ''='' \<noteq> b64_char s" if "s \<in> set (sextets bs)" for s
    using b64_char_not_pad [OF sextets_lt [OF that]] by simp
  then have nopad: "CHR ''='' \<notin> set ?body"
    by auto
  have nows: "filter (\<lambda>c. \<not> is_ascii_whitespace c) (base64 bs) = base64 bs"
    using lt b64_char_not_ws by (auto simp: base64_def is_ascii_whitespace_def filter_id_conv)
  have len: "length (base64 bs) mod 4 = 0"
    unfolding base64_def using length_sextets_pad [of bs] by simp
  have strip: "strip_padding (base64 bs) = ?body"
    unfolding base64_def by (rule strip_padding_pad) (use nopad in simp_all)
  have len1: "length ?body mod 4 \<noteq> 1"
    by (rule length_sextets_not1)
  show ?thesis
    unfolding forgiving_base64_decode_def using len1
    by (simp add: nows len strip Let_def those_values [OF lt] bytes_of_sextets_sextets
          del: map_map)
qed

subsection \<open>The data URL expression on a type, a subtype and a payload\<close>

lemma star_stuck: "f st = [] \<Longrightarrow> star n f st = [st]"
  by (cases n) simp_all

lemma star_chars:
  assumes step: "\<And>x xs c. f (x # xs, c) = (if Q x then [(xs, c)] else [])"
    and stop: "\<And>c. f ([], c) = []"
  shows "length s \<le> n \<Longrightarrow>
         set (star n f (s, c)) = (\<lambda>k. (drop k s, c)) ` {..length (takeWhile Q s)}"
proof (induction n arbitrary: s)
  case 0
  then show ?case by simp
next
  case (Suc n)
  show ?case
  proof (cases s)
    case Nil
    then show ?thesis by (simp add: stop)
  next
    case (Cons x xs)
    show ?thesis
    proof (cases "Q x")
      case True
      from Suc.prems Cons have "length xs \<le> n" by simp
      from Suc.IH [OF this]
      have ih: "set (star n f (xs, c)) = (\<lambda>k. (drop k xs, c)) ` {..length (takeWhile Q xs)}" .
      have "set (star (Suc n) f (s, c)) = set (star n f (xs, c)) \<union> {(s, c)}"
        using Cons True by (simp add: step)
      also have "\<dots> = (\<lambda>k. (drop k s, c)) ` {..length (takeWhile Q s)}"
        using Cons True ih by (auto simp: atMost_Suc_eq_insert_0 image_image)
      finally show ?thesis .
    next
      case False
      then show ?thesis using Cons by (simp add: step)
    qed
  qed
qed

lemma rmatch_Class_step:
  "rmatch (Class cs) (x # xs, c) = (if in_class cs x then [(xs, c)] else [])"
  "rmatch (Class cs) ([], c) = []"
  by (simp_all add: in_class_def)

lemma rmatch_NotClass_step:
  "rmatch (NotClass cs) (x # xs, c) = (if \<not> in_class cs x then [(xs, c)] else [])"
  "rmatch (NotClass cs) ([], c) = []"
  by (simp_all add: in_class_def)

lemma set_Star_NotClass:
  "set (rmatch (Star (NotClass cs)) (s, c)) =
     (\<lambda>k. (drop k s, c)) ` {..length (takeWhile (\<lambda>x. \<not> in_class cs x) s)}"
proof -
  have "set (star (length s) (rmatch (NotClass cs)) (s, c)) =
        (\<lambda>k. (drop k s, c)) ` {..length (takeWhile (\<lambda>x. \<not> in_class cs x) s)}"
    by (rule star_chars) (simp_all only: rmatch_NotClass_step order_refl)
  then show ?thesis by simp
qed

lemma set_Plus_Class:
  "set (rmatch (Plus (Class cs)) (s, c)) =
     (\<lambda>k. (drop k s, c)) ` {1..length (takeWhile (in_class cs) s)}"
proof (cases s)
  case Nil
  then show ?thesis by simp
next
  case (Cons x xs)
  show ?thesis
  proof (cases "in_class cs x")
    case True
    have "set (star (length xs) (rmatch (Class cs)) (xs, c)) =
          (\<lambda>k. (drop k xs, c)) ` {..length (takeWhile (in_class cs) xs)}"
      by (rule star_chars) (simp_all only: rmatch_Class_step order_refl)
    then have "set (rmatch (Plus (Class cs)) (s, c)) =
          (\<lambda>k. (drop k xs, c)) ` {..length (takeWhile (in_class cs) xs)}"
      using Cons True by (simp add: in_class_def)
    also have "\<dots> = (\<lambda>k. (drop k s, c)) ` (Suc ` {..length (takeWhile (in_class cs) xs)})"
      using Cons by (simp add: image_image)
    also have "\<dots> = (\<lambda>k. (drop k s, c)) ` {1..length (takeWhile (in_class cs) s)}"
      using Cons True by (simp add: image_Suc_atMost del: One_nat_def)
    finally show ?thesis .
  next
    case False
    then show ?thesis using Cons by (simp add: in_class_def)
  qed
qed

lemma set_rmatch_Seq:
  "set (rmatch (Seq r1 r2) st) = (\<Union>st'\<in>set (rmatch r1 st). set (rmatch r2 st'))"
  by simp

lemma set_rmatch_Group:
  "set (rmatch (Group k r) st) =
     (\<lambda>st'. (fst st', (k, take (length (fst st) - length (fst st')) (fst st)) # snd st')) `
       set (rmatch r st)"
  by simp

lemma in_class_alnum_slash: "in_class alnum x \<Longrightarrow> x \<noteq> CHR ''/''"
  by (auto simp: in_class_def alnum_def)

lemma in_class_sub_semicolon:
  "in_class (alnum @ [Single CHR ''-'', Single CHR ''.'', Single CHR ''+'']) x \<Longrightarrow> x \<noteq> CHR '';''"
  by (auto simp: in_class_def alnum_def)

lemma takeWhile_run:
  assumes "\<forall>x\<in>set a. Q x" and "\<not> Q y"
  shows "takeWhile Q (a @ y # rest) = a"
proof -
  have "takeWhile Q (a @ y # rest) = a @ takeWhile Q (y # rest)"
    by (rule takeWhile_append2) (use assms(1) in blast)
  then show ?thesis using assms(2) by simp
qed

text \<open>Group 3 on a payload without a double quote: the only full match takes it all.\<close>

lemma group3_full:
  assumes "CHR 0x22 \<notin> set p"
  shows "{st \<in> set (rmatch (Group 3 (Star (NotClass [Single (CHR 0x22)]))) (p, c)). fst st = []} =
         {([], (3, p) # c)}"
proof -
  have tw: "takeWhile (\<lambda>x. \<not> in_class [Single (CHR 0x22)] x) p = p"
    using assms by (auto simp: in_class_def)
  have "set (rmatch (Group 3 (Star (NotClass [Single (CHR 0x22)]))) (p, c)) =
        (\<lambda>k. (drop k p, (3, take k p) # c)) ` {..length p}"
  proof -
    have "set (rmatch (Group 3 (Star (NotClass [Single (CHR 0x22)]))) (p, c)) =
          (\<lambda>k. (drop k p, (3, take (length p - length (drop k p)) p) # c)) ` {..length p}"
      by (simp only: set_rmatch_Group set_Star_NotClass tw image_image fst_conv snd_conv)
    also have "\<dots> = (\<lambda>k. (drop k p, (3, take k p) # c)) ` {..length p}"
      by (rule image_cong) simp_all
    finally show ?thesis .
  qed
  then show ?thesis
    by auto
qed

lemma tail_at_separator:
  "rmatch params_tail ('';base64,'' @ p, c) =
   rmatch (Group 3 (Star (NotClass [Single (CHR 0x22)]))) (p, c)"
  by (simp add: params_tail_def startsWith_def alnum_def)

lemma tail_before_separator:
  assumes "y \<noteq> CHR '';''"
  shows "rmatch params_tail (y # rest, c) = []"
proof -
  let ?g2 = "Group 2 (Seq (Lit '';'')
                  (Plus (Class (alnum @ [Single CHR ''-'', Single CHR ''_'', Single CHR ''='',
                                         Single CHR ''.'', Single CHR ''+'']))))"
  have "rmatch ?g2 (y # rest, c) = []"
    using assms by (simp add: startsWith_def)
  then have "rmatch (Star ?g2) (y # rest, c) = [(y # rest, c)]"
    by (simp only: rmatch.simps star_stuck)
  then show ?thesis
    using assms unfolding params_tail_def
    by (simp only: rmatch.simps) (simp add: startsWith_def)
qed

lemma dataURLRegex_parts: "dataURLRegex = Seq (Lit ''data:'') (Seq media_type params_tail)"
  by (simp add: dataURLRegex_def media_type_def params_tail_def)

lemma slash_then_subtype:
  assumes a: "\<forall>x\<in>set a. in_class alnum x"
    and k: "1 \<le> k" "k \<le> length a"
  shows "set (rmatch (Seq (Lit ''/'') r) (drop k (a @ CHR ''/'' # rest), c)) =
         (if k = length a then set (rmatch r (rest, c)) else {})"
proof (cases "k = length a")
  case True
  then show ?thesis by (simp add: startsWith_def)
next
  case False
  with k have "k < length a" by simp
  then obtain y ys where d: "drop k a = y # ys"
    by (cases "drop k a") auto
  then have "y \<in> set a"
    by (metis in_set_dropD list.set_intros(1))
  with a have "y \<noteq> CHR ''/''"
    using in_class_alnum_slash by blast
  moreover have "drop k (a @ CHR ''/'' # rest) = y # ys @ CHR ''/'' # rest"
    using d \<open>k < length a\<close> by simp
  ultimately show ?thesis
    using False by (simp add: startsWith_def)
qed

lemma media_type_ends:
  assumes a: "a \<noteq> []" "\<forall>x\<in>set a. in_class alnum x"
    and b: "\<forall>x\<in>set b. in_class (alnum @ [Single CHR ''-'', Single CHR ''.'', Single CHR ''+'']) x"
  shows "set (rmatch media_type (a @ ''/'' @ b @ CHR '';'' # rest, c)) =
         (\<lambda>j. (drop j b @ CHR '';'' # rest, (1, a @ ''/'' @ take j b) # c)) ` {1..length b}"
proof -
  let ?sub = "alnum @ [Single CHR ''-'', Single CHR ''.'', Single CHR ''+'']"
  let ?s = "a @ CHR ''/'' # b @ CHR '';'' # rest"
  have twa: "takeWhile (in_class alnum) ?s = a"
    by (rule takeWhile_run) (use a in \<open>auto simp: in_class_def alnum_def\<close>)
  have twb: "takeWhile (in_class ?sub) (b @ CHR '';'' # rest) = b"
    by (rule takeWhile_run) (use b in \<open>auto simp: in_class_def alnum_def\<close>)
  have inner: "set (rmatch (Seq (Plus (Class alnum)) (Seq (Lit ''/'') (Plus (Class ?sub)))) (?s, c)) =
               (\<lambda>j. (drop j (b @ CHR '';'' # rest), c)) ` {1..length b}"
  proof -
    have "set (rmatch (Seq (Plus (Class alnum)) (Seq (Lit ''/'') (Plus (Class ?sub)))) (?s, c)) =
          (\<Union>k\<in>{1..length a}. set (rmatch (Seq (Lit ''/'') (Plus (Class ?sub))) (drop k ?s, c)))"
      by (simp only: set_rmatch_Seq set_Plus_Class twa UN_simps image_image)
    also have "\<dots> = (\<Union>k\<in>{1..length a}.
                 if k = length a then set (rmatch (Plus (Class ?sub)) (b @ CHR '';'' # rest, c)) else {})"
    proof (rule SUP_cong [OF refl])
      fix k
      assume "k \<in> {1..length a}"
      then have "1 \<le> k" "k \<le> length a"
        by simp_all
      from slash_then_subtype [OF a(2) this]
      show "set (rmatch (Seq (Lit ''/'') (Plus (Class ?sub))) (drop k ?s, c)) =
            (if k = length a then set (rmatch (Plus (Class ?sub)) (b @ CHR '';'' # rest, c)) else {})" .
    qed
    also have "\<dots> = set (rmatch (Plus (Class ?sub)) (b @ CHR '';'' # rest, c))"
      using a(1) by (auto split: if_splits simp: Suc_le_eq)
    also have "\<dots> = (\<lambda>j. (drop j (b @ CHR '';'' # rest), c)) ` {1..length b}"
      by (simp only: set_Plus_Class twb)
    finally show ?thesis .
  qed
  have "set (rmatch media_type (?s, c)) =
        (\<lambda>j. (drop j (b @ CHR '';'' # rest),
               (1, take (length ?s - length (drop j (b @ CHR '';'' # rest))) ?s) # c)) ` {1..length b}"
    unfolding media_type_def
    by (simp only: set_rmatch_Group inner image_image fst_conv snd_conv)
  also have "\<dots> = (\<lambda>j. (drop j b @ CHR '';'' # rest, (1, a @ ''/'' @ take j b) # c)) ` {1..length b}"
    by (rule image_cong) simp_all
  finally show ?thesis by simp
qed

lemma first_of_singleton:
  assumes "set (filter P xs) = {v}"
  shows "(case filter P xs of [] \<Rightarrow> None | st # _ \<Rightarrow> Some (snd st)) = Some (snd v)"
proof (cases "filter P xs")
  case Nil
  with assms show ?thesis by simp
next
  case (Cons st sts)
  with assms have "st = v" by auto
  with Cons show ?thesis by simp
qed

lemma dataURLRegex_match:
  assumes a: "a \<noteq> []" "\<forall>x\<in>set a. in_class alnum x"
    and b: "b \<noteq> []"
      "\<forall>x\<in>set b. in_class (alnum @ [Single CHR ''-'', Single CHR ''.'', Single CHR ''+'']) x"
    and p: "CHR 0x22 \<notin> set p"
  shows "regex_exec dataURLRegex (''data:'' @ a @ ''/'' @ b @ '';base64,'' @ p) =
           Some [(3, p), (1, a @ ''/'' @ b)]"
proof -
  let ?tail = "''base64,'' @ p"
  let ?g3 = "Group 3 (Star (NotClass [Single (CHR 0x22)]))"
  let ?c1 = "[(1, a @ ''/'' @ b)]"
  have start: "rmatch dataURLRegex (''data:'' @ a @ ''/'' @ b @ '';base64,'' @ p, []) =
               rmatch (Seq media_type params_tail) (a @ ''/'' @ b @ CHR '';'' # ?tail, [])"
    unfolding dataURLRegex_parts by (simp add: startsWith_def)
  have step: "set (rmatch params_tail (drop j b @ CHR '';'' # ?tail, (1, a @ ''/'' @ take j b) # [])) =
              (if j = length b then set (rmatch ?g3 (p, ?c1)) else {})"
    if j: "j \<in> {1..length b}" for j
  proof (cases "j = length b")
    case True
    then show ?thesis using tail_at_separator [of p ?c1] by simp
  next
    case False
    with j have "j < length b" by simp
    then obtain y ys where d: "drop j b = y # ys"
      by (cases "drop j b") auto
    then have "y \<in> set b"
      by (metis in_set_dropD list.set_intros(1))
    with b(2) have "y \<noteq> CHR '';''"
      using in_class_sub_semicolon by blast
    from tail_before_separator [OF this] d False show ?thesis
      by simp
  qed
  have "set (rmatch (Seq media_type params_tail) (a @ ''/'' @ b @ CHR '';'' # ?tail, [])) =
        (\<Union>j\<in>{1..length b}.
           set (rmatch params_tail (drop j b @ CHR '';'' # ?tail, (1, a @ ''/'' @ take j b) # [])))"
    by (simp only: set_rmatch_Seq media_type_ends [OF a b(2)] UN_simps image_image)
  also have "\<dots> = (\<Union>j\<in>{1..length b}. if j = length b then set (rmatch ?g3 (p, ?c1)) else {})"
    by (rule SUP_cong [OF refl]) (rule step)
  also have "\<dots> = set (rmatch ?g3 (p, ?c1))"
    using b(1) by (auto split: if_splits simp: Suc_le_eq)
  finally have all: "set (rmatch dataURLRegex (''data:'' @ a @ ''/'' @ b @ '';base64,'' @ p, [])) =
                     set (rmatch ?g3 (p, ?c1))"
    by (simp only: start)
  have "set (filter (\<lambda>st. fst st = [])
               (rmatch dataURLRegex (''data:'' @ a @ ''/'' @ b @ '';base64,'' @ p, []))) =
        {st \<in> set (rmatch ?g3 (p, ?c1)). fst st = []}"
    by (simp only: set_filter all)
  also have "\<dots> = {([], (3, p) # ?c1)}"
    by (rule group3_full [OF p])
  finally show ?thesis
    unfolding regex_exec_def by (simp only: first_of_singleton snd_conv)
qed

subsection \<open>The text of an asset\<close>

lemma b64_char_not_quote: "n < 64 \<Longrightarrow> b64_char n \<noteq> CHR 0x22"
  by (auto simp: b64_char_def char_of_eq_iff take_bit_eq_mod)

lemma base64_no_quote: "CHR 0x22 \<notin> set (base64 bs)"
proof -
  have "CHR 0x22 \<noteq> b64_char s" if "s \<in> set (sextets bs)" for s
    using b64_char_not_quote [OF sextets_lt [OF that]] by simp
  then show ?thesis
    by (auto simp: base64_def)
qed

lemma bytes_of_chars: "map (\<lambda>c. of_nat (of_char c)) (map (\<lambda>b. char_of (unat b)) bs) = (bs :: bytes)"
proof -
  have "of_nat (of_char (char_of (unat b) :: char)) = b" for b :: byte
    using unat_byte_lt [of b] by simp
  then show ?thesis
    by (simp add: comp_def)
qed

lemma atob_base64: "atob (base64 bs) = Inr (map (\<lambda>b. char_of (unat b)) bs)"
  by (simp add: atob_def base64_decode_encode)

lemma btoa_atob_base64: "btoa (map (\<lambda>b. char_of (unat b)) bs) = Inr (base64 bs)"
  unfolding btoa_def by (simp only: bytes_of_chars)

lemma data_url_matches:
  assumes "type_subtype a b"
  shows "regex_exec dataURLRegex (''data:'' @ (a @ ''/'' @ b) @ '';base64,'' @ base64 bs) =
           Some [(3, base64 bs), (1, a @ ''/'' @ b)]"
proof -
  from assms have "a \<noteq> []" "\<forall>x\<in>set a. in_class alnum x" "b \<noteq> []"
    "\<forall>x\<in>set b. in_class (alnum @ [Single CHR ''-'', Single CHR ''.'', Single CHR ''+'']) x"
    by (simp_all add: type_subtype_def list_all_iff)
  from dataURLRegex_match [OF this base64_no_quote [of bs]] show ?thesis
    by simp
qed

subsection \<open>The static field of \<open>handle\<close>\<close>

lemma handle_alone: "handle e inp given Own_handler = processInput e (FileHandler given) inp"
  by (simp add: handle_def split: sum.splits)

lemma handle_overlapped:
  "processInput e (FileHandler given) inp = Inr own \<Longrightarrow>
   handle e inp given (Handler_of_later_call other) = Inr other"
  by (simp add: handle_def)

section \<open>The claims\<close>

text \<open>
  C1. The optimization branch of \<open>processInput\<close> runs if and only if the resolved
  \<open>mimeType\<close> starts with \<open>image/\<close> and \<open>skipImageOptimization\<close> of the handler's options is
  \<open>false\<close>. In every other case the pipeline changes nothing: \<open>toBuffer()\<close> is the resolved
  bytes and \<open>mimeType\<close> is the resolved type.
\<close>

theorem processInput_optimizes_iff:
  assumes "resolveInput e inp = Inr (b, t)"
  shows "((case t of None \<Rightarrow> False | Some s \<Rightarrow> startsWith s ''image/'') \<and>
          skipImageOptimization (options (FileHandler given)) = JBool False \<longrightarrow>
            processInput e (FileHandler given) inp =
              optimizeImage e ((FileHandler given)\<lparr>mimeType := t\<rparr>) b) \<and>
         (\<not> ((case t of None \<Rightarrow> False | Some s \<Rightarrow> startsWith s ''image/'') \<and>
             skipImageOptimization (options (FileHandler given)) = JBool False) \<longrightarrow>
            (\<exists>h. processInput e (FileHandler given) inp = Inr h \<and> toBuffer h = Some b \<and>
                 mimeType h = t \<and> options h = options (FileHandler given)))"
proof -
  let ?h = "(FileHandler given)\<lparr>mimeType := t\<rparr>"
  have img: "truthy (isImage ?h) = (case t of None \<Rightarrow> False | Some s \<Rightarrow> startsWith s ''image/'')"
    by (simp add: isImage_def split: option.splits)
  show ?thesis
    using assms
    by (simp add: processInput_def Let_def img resolved_skip toBuffer_def)
qed

theorem processInput_optimizes_iff_witness:
  "resolveInput toy_env (String ''notes.txt'') = Inr ([104, 105], Some ''text/plain'') \<and>
   (\<exists>h. processInput toy_env (FileHandler no_options) (String ''notes.txt'') = Inr h \<and>
        toBuffer h = Some [104, 105] \<and> mimeType h = Some ''text/plain'') \<and>
   resolveInput toy_env (String ''logo.png'') = Inr ([137, 4, 3], Some ''image/png'') \<and>
   processInput toy_env (FileHandler no_options) (String ''logo.png'') =
     optimizeImage toy_env ((FileHandler no_options)\<lparr>mimeType := Some ''image/png''\<rparr>) [137, 4, 3]"
proof -
  have r1: "resolveInput toy_env (String ''notes.txt'') = Inr ([104, 105], Some ''text/plain'')"
    by (simp add: resolveInput_def toy_env_def startsWith_def)
  have r2: "resolveInput toy_env (String ''logo.png'') = Inr ([137, 4, 3], Some ''image/png'')"
    by (simp add: resolveInput_def toy_env_def startsWith_def)
  have skip: "skipImageOptimization (options (FileHandler no_options)) = JBool False"
    by (simp add: FileHandler_def no_options_def js_or_def)
  from processInput_optimizes_iff [OF r1, of no_options]
  have c1: "\<exists>h. processInput toy_env (FileHandler no_options) (String ''notes.txt'') = Inr h \<and>
              toBuffer h = Some [104, 105] \<and> mimeType h = Some ''text/plain''"
    by (simp add: startsWith_def) blast
  from processInput_optimizes_iff [OF r2, of no_options] skip
  have c2: "processInput toy_env (FileHandler no_options) (String ''logo.png'') =
            optimizeImage toy_env ((FileHandler no_options)\<lparr>mimeType := Some ''image/png''\<rparr>) [137, 4, 3]"
    by (simp add: startsWith_def)
  from r1 c1 r2 c2 show ?thesis
    by (intro conjI)
qed

text \<open>
  C2. In \<open>optimizeImage\<close> a resize is requested only when the decoded width exceeds
  \<open>maxWidth\<close> or the decoded height exceeds \<open>maxHeight\<close>; the request is for the fit
  \<open>inside\<close>, which keeps the aspect ratio, without enlargement. For an image within both
  bounds the instance that is encoded carries no resize, and the conversion to the
  configured format and quality is still applied to it.
\<close>

theorem optimizeImage_resize_decision:
  assumes "sharp_metadata e b = Inr md" and "optimizeImage e h b = Inr h'"
  shows "\<exists>img out.
           sharp_toBuffer e img = Inr out \<and> toBuffer h' = Some out \<and> input img = b \<and>
           toFormat_op img = Some (options.format (options h), quality (options h)) \<and>
           resize_op img =
             (if js_gt (StringToNumber e) (width md) (maxWidth (options h)) \<or>
                 js_gt (StringToNumber e) (height md) (maxHeight (options h))
              then Some (maxWidth (options h), maxHeight (options h), ''inside'', True)
              else None) \<and>
           (\<forall>mw mh. maxWidth (options h) = JNum mw \<and> maxHeight (options h) = JNum mh \<longrightarrow>
              (resize_op img \<noteq> None \<longleftrightarrow> width md > mw \<or> height md > mh))"
proof -
  from assms(2) obtain md' img out where *:
    "sharp_metadata e b = Inr md'"
    "sharp_toBuffer e img = Inr out"
    "input img = b"
    "toFormat_op img = Some (options.format (options h), quality (options h))"
    "resize_op img =
       (if js_gt (StringToNumber e) (width md') (maxWidth (options h)) \<or>
           js_gt (StringToNumber e) (height md') (maxHeight (options h))
        then Some (maxWidth (options h), maxHeight (options h), ''inside'', True) else None)"
    "h' = h\<lparr> buffer := Some out,
              mimeType := Some (''image/'' @ js_toString (NumberToString e) (options.format (options h))) \<rparr>"
    by (rule optimizeImage_Inr)
  from *(1) assms(1) have md: "md' = md" by simp
  show ?thesis
    using * unfolding md
    by (intro exI [of _ img] exI [of _ out]) (auto simp: toBuffer_def js_gt_JNum)
qed

theorem optimizeImage_resize_decision_witness:
  "sharp_metadata toy_env [137, 4, 3] = Inr \<lparr> width = 4, height = 3, format = ''png'' \<rparr> \<and>
   optimizeImage toy_env (FileHandler (no_options\<lparr>maxWidth := JNum 3\<rparr>)) [137, 4, 3] =
     Inr \<lparr> options = default_options\<lparr>maxWidth := JNum 3\<rparr>, buffer = Some [255, 137, 4, 3],
           mimeType = Some ''image/jpeg'' \<rparr> \<and>
   (\<exists>img. sharp_toBuffer toy_env img = Inr [255, 137, 4, 3] \<and>
      toFormat_op img = Some (JStr ''jpeg'', JNum 90) \<and>
      resize_op img = Some (JNum 3, JNum 500, ''inside'', True))"
proof -
  let ?h = "FileHandler (no_options\<lparr>maxWidth := JNum 3\<rparr>)"
  let ?h' = "\<lparr> options = default_options\<lparr>maxWidth := JNum 3\<rparr>, buffer = Some [255, 137, 4, 3],
               mimeType = Some ''image/jpeg'' \<rparr>"
  have m: "sharp_metadata toy_env [137, 4, 3] = Inr \<lparr> width = 4, height = 3, format = ''png'' \<rparr>"
    by code_simp
  have o: "optimizeImage toy_env ?h [137, 4, 3] = Inr ?h'"
    by code_simp
  from optimizeImage_resize_decision [OF m o]
  have "\<exists>img. sharp_toBuffer toy_env img = Inr [255, 137, 4, 3] \<and>
           toFormat_op img = Some (JStr ''jpeg'', JNum 90) \<and>
           resize_op img = Some (JNum 3, JNum 500, ''inside'', True)"
    by (auto simp: toBuffer_def js_gt_def FileHandler_def no_options_def js_or_def)
  with m o show ?thesis
    by (intro conjI)
qed

text \<open>
  C3. Whenever \<open>optimizeImage\<close> runs to completion, \<open>mimeType\<close> is \<open>image/\<close> followed by
  the configured format, whatever the format of the source was, and the buffer is what
  the codec encoded with the conversion to that format requested: the encoding is never
  skipped.
\<close>

theorem optimizeImage_rewrites_type:
  assumes "optimizeImage e h b = Inr h'"
  shows "mimeType h' = Some (''image/'' @ js_toString (NumberToString e) (options.format (options h))) \<and>
         (\<exists>img out. input img = b \<and>
            toFormat_op img = Some (options.format (options h), quality (options h)) \<and>
            sharp_toBuffer e img = Inr out \<and> toBuffer h' = Some out)"
proof -
  from assms obtain md img out where
    "sharp_metadata e b = Inr md"
    "sharp_toBuffer e img = Inr out"
    "input img = b"
    "toFormat_op img = Some (options.format (options h), quality (options h))"
    "h' = h\<lparr> buffer := Some out,
              mimeType := Some (''image/'' @ js_toString (NumberToString e) (options.format (options h))) \<rparr>"
    by (rule optimizeImage_Inr)
  then show ?thesis
    by (auto simp: toBuffer_def)
qed

theorem optimizeImage_rewrites_type_witness:
  "optimizeImage toy_env
     ((FileHandler (no_options\<lparr>options.format := JStr ''png''\<rparr>))\<lparr>mimeType := Some ''image/png''\<rparr>)
     [137, 4, 3] =
     Inr \<lparr> options = default_options\<lparr>options.format := JStr ''png''\<rparr>,
           buffer = Some [255, 137, 4, 3], mimeType = Some ''image/png'' \<rparr> \<and>
   (\<exists>img. input img = [137, 4, 3] \<and> toFormat_op img = Some (JStr ''png'', JNum 90) \<and>
      sharp_toBuffer toy_env img = Inr [255, 137, 4, 3])"
proof -
  let ?h = "(FileHandler (no_options\<lparr>options.format := JStr ''png''\<rparr>))\<lparr>mimeType := Some ''image/png''\<rparr>"
  let ?h' = "\<lparr> options = default_options\<lparr>options.format := JStr ''png''\<rparr>,
               buffer = Some [255, 137, 4, 3], mimeType = Some ''image/png'' \<rparr>"
  have m: "sharp_metadata toy_env [137, 4, 3] = Inr \<lparr> width = 4, height = 3, format = ''png'' \<rparr>"
    by code_simp
  have o: "optimizeImage toy_env ?h [137, 4, 3] = Inr ?h'"
    by code_simp
  from optimizeImage_rewrites_type [OF o]
  have "\<exists>img. input img = [137, 4, 3] \<and> toFormat_op img = Some (JStr ''png'', JNum 90) \<and>
           sharp_toBuffer toy_env img = Inr [255, 137, 4, 3]"
    by (auto simp: toBuffer_def FileHandler_def no_options_def js_or_def)
  with o show ?thesis
    by (intro conjI)
qed

text \<open>
  C4, as the code has it. When the response to a fetch carries no \<open>content-type\<close> header,
  \<open>processInput\<close> leaves \<open>mimeType\<close> at \<open>null\<close> (the sniffer is not consulted), \<open>isImage()\<close>
  returns \<open>undefined\<close>, a falsy value that is not the boolean \<open>false\<close>, and the buffer is the
  body as fetched, whatever the codec would make of it and whatever the options are.
\<close>

theorem missing_content_type:
  assumes "startsWith url ''http://'' \<or> startsWith url ''https://''"
    and "fetch e url = Inr (body, None)"
  shows "\<exists>h'. processInput e h (String url) = Inr h' \<and> mimeType h' = None \<and>
           isImage h' = JUndefined \<and> \<not> truthy (isImage h') \<and> toBuffer h' = Some body \<and>
           options h' = options h"
  using assms
  by (auto simp: processInput_def resolveInput_def Let_def isImage_def toBuffer_def)

theorem missing_content_type_witness:
  "startsWith ''https://example.org/logo'' ''https://'' \<and>
   fetch toy_env ''https://example.org/logo'' = Inr ([137, 4, 3], None) \<and>
   sharp_metadata toy_env [137, 4, 3] = Inr \<lparr> width = 4, height = 3, format = ''png'' \<rparr> \<and>
   (\<exists>h'. processInput toy_env (FileHandler no_options) (String ''https://example.org/logo'') = Inr h' \<and>
        mimeType h' = None \<and> isImage h' = JUndefined \<and> toBuffer h' = Some [137, 4, 3])"
proof -
  have s: "startsWith ''https://example.org/logo'' ''https://''"
    by code_simp
  have f: "fetch toy_env ''https://example.org/logo'' = Inr ([137, 4, 3], None)"
    by code_simp
  have m: "sharp_metadata toy_env [137, 4, 3] = Inr \<lparr> width = 4, height = 3, format = ''png'' \<rparr>"
    by code_simp
  from missing_content_type [OF disjI2 [OF s] f, of "FileHandler no_options"]
  have "\<exists>h'. processInput toy_env (FileHandler no_options) (String ''https://example.org/logo'') = Inr h' \<and>
          mimeType h' = None \<and> isImage h' = JUndefined \<and> toBuffer h' = Some [137, 4, 3]"
    by blast
  with s f m show ?thesis
    by (intro conjI)
qed

text \<open>
  C4, as the specification states it, fails: for the URL of the small environment, whose
  response has no \<open>content-type\<close> header, \<open>isImage()\<close> is not \<open>false\<close>.
\<close>

theorem isImage_not_false_counterexample:
  "processInput toy_env (FileHandler no_options) (String ''https://example.org/logo'') =
     Inr \<lparr> options = default_options, buffer = Some [137, 4, 3], mimeType = None \<rparr> \<and>
   isImage \<lparr> options = default_options, buffer = Some [137, 4, 3], mimeType = None \<rparr> \<noteq> JBool False"
  by code_simp

text \<open>
  C5. \<open>detectMimeType\<close> never throws: when the codec reads the metadata of the bytes it
  returns \<open>image/\<close> followed by the detected format, and for every other buffer it returns
  \<open>application/octet-stream\<close>.
\<close>

theorem detectMimeType_total:
  "(\<exists>t. detectMimeType e b = Inr t) \<and>
   (\<forall>md. sharp_metadata e b = Inr md \<longrightarrow>
      detectMimeType e b = Inr (''image/'' @ metadata.format md)) \<and>
   (\<forall>err. sharp_metadata e b = Inl err \<longrightarrow>
      detectMimeType e b = Inr ''application/octet-stream'')"
  by (cases "sharp_metadata e b") (simp_all add: detectMimeType_def try_catch_def)

theorem detectMimeType_total_witness:
  "sharp_metadata toy_env [137, 4, 3] = Inr \<lparr> width = 4, height = 3, format = ''png'' \<rparr> \<and>
   detectMimeType toy_env [137, 4, 3] = Inr ''image/png'' \<and>
   sharp_metadata toy_env [1, 2, 3] =
     Inl (SharpError ''Input buffer contains unsupported image format'') \<and>
   detectMimeType toy_env [1, 2, 3] = Inr ''application/octet-stream''"
proof -
  have m1: "sharp_metadata toy_env [137, 4, 3] = Inr \<lparr> width = 4, height = 3, format = ''png'' \<rparr>"
    by code_simp
  have m2: "sharp_metadata toy_env [1, 2, 3] =
              Inl (SharpError ''Input buffer contains unsupported image format'')"
    by code_simp
  from detectMimeType_total [of toy_env "[137, 4, 3]"] m1
  have d1: "detectMimeType toy_env [137, 4, 3] = Inr ''image/png''"
    by simp
  from detectMimeType_total [of toy_env "[1, 2, 3]"] m2
  have d2: "detectMimeType toy_env [1, 2, 3] = Inr ''application/octet-stream''"
    by simp
  from m1 d1 m2 d2 show ?thesis
    by (intro conjI)
qed

text \<open>
  C6. For every input that is no string, buffer, readable stream or blob, \<open>processInput\<close>
  and \<open>handle\<close> fail with the error \<open>Unsupported input format\<close>, before any collaborator
  is called, and give no handler, whatever the static field holds.
\<close>

theorem unsupported_input_fails:
  "processInput e h (Other v) = Inl (Error ''Unsupported input format'') \<and>
   handle e (Other v) given field = Inl (Error ''Unsupported input format'')"
  by (simp add: handle_def processInput_def resolveInput_def)

theorem unsupported_input_fails_witness:
  "handle toy_env (Other (Number 42)) no_options Own_handler =
     Inl (Error ''Unsupported input format'')"
  using unsupported_input_fails
    [of toy_env "FileHandler no_options" "Number 42" no_options Own_handler]
  by simp

text \<open>
  C7. When the resolved \<open>mimeType\<close> starts with \<open>image/\<close>, the optimization is not skipped
  and the codec cannot read the bytes, the error of the codec is the result of \<open>handle\<close>,
  whatever the static field holds: there is no fall back to the bytes as resolved.
\<close>

theorem codec_failure_propagates:
  assumes "resolveInput e inp = Inr (b, Some s)"
    and "startsWith s ''image/''"
    and "\<not> truthy (skipImageOptimization given)"
    and "sharp_metadata e b = Inl err"
  shows "handle e inp given field = Inl err"
  using assms
  by (simp add: handle_def processInput_def Let_def isImage_def optimizeImage_def
        FileHandler_def js_or_def)

theorem codec_failure_propagates_witness:
  "resolveInput toy_env (String ''broken.png'') = Inr ([1, 2, 3], Some ''image/png'') \<and>
   startsWith ''image/png'' ''image/'' \<and>
   \<not> truthy (skipImageOptimization no_options) \<and>
   sharp_metadata toy_env [1, 2, 3] =
     Inl (SharpError ''Input buffer contains unsupported image format'') \<and>
   handle toy_env (String ''broken.png'') no_options Own_handler =
     Inl (SharpError ''Input buffer contains unsupported image format'')"
proof -
  have r: "resolveInput toy_env (String ''broken.png'') = Inr ([1, 2, 3], Some ''image/png'')"
    by code_simp
  have s: "startsWith ''image/png'' ''image/''"
    by code_simp
  have k: "\<not> truthy (skipImageOptimization no_options)"
    by (simp add: no_options_def)
  have m: "sharp_metadata toy_env [1, 2, 3] =
             Inl (SharpError ''Input buffer contains unsupported image format'')"
    by code_simp
  from r s k m codec_failure_propagates [OF r s k m, of Own_handler] show ?thesis
    by (intro conjI)
qed

text \<open>
  C8, as the code has it. For a handler whose buffer is set, \<open>toBase64URL()\<close> is \<open>data:\<close>,
  the text of \<open>mimeType\<close> (\<open>null\<close> when it is \<open>null\<close>), \<open>;base64,\<close> and the base64 text of
  the bytes. When \<open>mimeType\<close> is a type, \<open>/\<close> and a subtype as the data URL expression of
  the source reads them, matching that text against the expression gives back \<open>mimeType\<close>
  as group 1 and the base64 text as group 3, \<open>atob\<close> of the base64 text gives back the
  bytes, and \<open>isBase64DataURL\<close> accepts the text.
\<close>

theorem toBase64URL_round_trip:
  assumes "buffer h = Some bs"
  shows "toBase64URL h =
           Inr (''data:'' @ (case mimeType h of None \<Rightarrow> ''null'' | Some t \<Rightarrow> t) @ '';base64,'' @
                base64 bs) \<and>
         (\<forall>a b. mimeType h = Some (a @ ''/'' @ b) \<and> type_subtype a b \<longrightarrow>
            (\<exists>u matches decoded.
               toBase64URL h = Inr u \<and>
               regex_exec dataURLRegex u = Some matches \<and>
               map_of matches 1 = Some (a @ ''/'' @ b) \<and>
               map_of matches 3 = Some (base64 bs) \<and>
               atob (base64 bs) = Inr decoded \<and>
               map (\<lambda>c. of_nat (of_char c)) decoded = bs \<and>
               isBase64DataURL n2s (JStr u) JNull = Inr True))"
proof (intro conjI allI impI)
  show "toBase64URL h =
          Inr (''data:'' @ (case mimeType h of None \<Rightarrow> ''null'' | Some t \<Rightarrow> t) @ '';base64,'' @
               base64 bs)"
    using assms by (simp add: toBase64URL_def)
next
  fix a b
  assume t: "mimeType h = Some (a @ ''/'' @ b) \<and> type_subtype a b"
  let ?u = "''data:'' @ (a @ ''/'' @ b) @ '';base64,'' @ base64 bs"
  let ?matches = "[(3, base64 bs), (1 :: nat, a @ ''/'' @ b)]"
  let ?decoded = "map (\<lambda>b. char_of (unat b)) bs :: string"
  from t assms have u: "toBase64URL h = Inr ?u"
    by (simp add: toBase64URL_def)
  from t have m: "regex_exec dataURLRegex ?u = Some ?matches"
    by (intro data_url_matches) simp
  have g1: "map_of ?matches 1 = Some (a @ ''/'' @ b)" and g3: "map_of ?matches 3 = Some (base64 bs)"
    by simp_all
  have d: "atob (base64 bs) = Inr ?decoded"
    by (rule atob_base64)
  have bytes_back: "map (\<lambda>c. of_nat (of_char c)) ?decoded = bs"
    by (rule bytes_of_chars)
  have ne: "?u \<noteq> []" and st: "startsWith ?u ''data:''"
    by (simp_all add: startsWith_def)
  have ok: "isBase64DataURL n2s (JStr ?u) JNull = Inr True"
    unfolding isBase64DataURL_def
    by (simp only: jsval.case ne st m g1 g3 d btoa_atob_base64 truthy.simps
          if_False if_True simp_thms option.case prod.case sum.case)
  from u m g1 g3 d bytes_back ok
  show "\<exists>u matches decoded.
          toBase64URL h = Inr u \<and> regex_exec dataURLRegex u = Some matches \<and>
          map_of matches 1 = Some (a @ ''/'' @ b) \<and> map_of matches 3 = Some (base64 bs) \<and>
          atob (base64 bs) = Inr decoded \<and> map (\<lambda>c. of_nat (of_char c)) decoded = bs \<and>
          isBase64DataURL n2s (JStr u) JNull = Inr True"
    by blast
qed

theorem toBase64URL_round_trip_witness:
  "buffer \<lparr> options = default_options, buffer = Some [104, 105], mimeType = Some ''text/plain'' \<rparr> =
     Some [104, 105] \<and>
   type_subtype ''text'' ''plain'' \<and>
   toBase64URL \<lparr> options = default_options, buffer = Some [104, 105], mimeType = Some ''text/plain'' \<rparr> =
     Inr ''data:text/plain;base64,aGk='' \<and>
   (\<exists>matches. regex_exec dataURLRegex ''data:text/plain;base64,aGk='' = Some matches \<and>
      map_of matches 1 = Some ''text/plain'' \<and> map_of matches 3 = Some ''aGk='') \<and>
   atob ''aGk='' = Inr ''hi'' \<and>
   isBase64DataURL string_of_int (JStr ''data:text/plain;base64,aGk='') JNull = Inr True"
proof -
  let ?h = "\<lparr> options = default_options, buffer = Some [104, 105], mimeType = Some ''text/plain'' \<rparr>"
  have b: "buffer ?h = Some [104, 105]"
    by simp
  have e: "base64 [104, 105] = ''aGk=''"
    by code_simp
  have ts: "type_subtype ''text'' ''plain''"
    by code_simp
  have mt: "mimeType ?h = Some (''text'' @ ''/'' @ ''plain'')"
    by simp
  from toBase64URL_round_trip [OF b, of string_of_int]
  have u: "toBase64URL ?h = Inr ''data:text/plain;base64,aGk=''"
    by (simp add: e)
  from toBase64URL_round_trip [OF b, of string_of_int]
  have "\<forall>a b. mimeType ?h = Some (a @ ''/'' @ b) \<and> type_subtype a b \<longrightarrow>
          (\<exists>u matches decoded.
             toBase64URL ?h = Inr u \<and>
             regex_exec dataURLRegex u = Some matches \<and>
             map_of matches 1 = Some (a @ ''/'' @ b) \<and>
             map_of matches 3 = Some (base64 [104, 105]) \<and>
             atob (base64 [104, 105]) = Inr decoded \<and>
             map (\<lambda>c. of_nat (of_char c)) decoded = ([104, 105] :: bytes) \<and>
             isBase64DataURL string_of_int (JStr u) JNull = Inr True)"
    by (rule conjunct2)
  from this [rule_format, OF conjI [OF mt ts]]
  obtain v matches decoded where v: "toBase64URL ?h = Inr v"
    and m: "regex_exec dataURLRegex v = Some matches"
    and g1: "map_of matches 1 = Some (''text'' @ ''/'' @ ''plain'')"
    and g3: "map_of matches 3 = Some (base64 [104, 105])"
    and d: "atob (base64 [104, 105]) = Inr decoded"
    and ok: "isBase64DataURL string_of_int (JStr v) JNull = Inr True"
    by blast
  from u v have veq: "v = ''data:text/plain;base64,aGk=''"
    by simp
  from m g1 g3 have c1: "\<exists>matches. regex_exec dataURLRegex ''data:text/plain;base64,aGk='' = Some matches \<and>
      map_of matches 1 = Some ''text/plain'' \<and> map_of matches 3 = Some ''aGk=''"
    unfolding veq e by auto
  from d have "atob ''aGk='' = Inr decoded"
    unfolding e .
  moreover have "atob ''aGk='' = Inr ''hi''"
    by code_simp
  ultimately have c2: "atob ''aGk='' = Inr ''hi''"
    by simp
  from ok have c3: "isBase64DataURL string_of_int (JStr ''data:text/plain;base64,aGk='') JNull = Inr True"
    unfolding veq .
  from b ts u c1 c2 c3 show ?thesis
    by (intro conjI)
qed

text \<open>
  C8, as the specification states it, fails. The asset fetched from the URL of the small
  environment has no \<open>mimeType\<close>: its text has \<open>null\<close> in the place of the type, the data
  URL expression of the source does not match it and \<open>isBase64DataURL\<close> rejects it; a blob
  of type \<open>null\<close> with the same bytes gives the same text, so that no reader tells the two
  assets apart. For a blob whose type has a parameter, group 1 is the type without the
  parameter, and with a space before the parameter the expression does not match.
\<close>

theorem toBase64URL_round_trip_counterexample:
  "processInput toy_env (FileHandler no_options) (String ''https://example.org/logo'') =
     Inr \<lparr> options = default_options, buffer = Some [137, 4, 3], mimeType = None \<rparr> \<and>
   toBase64URL \<lparr> options = default_options, buffer = Some [137, 4, 3], mimeType = None \<rparr> =
     Inr ''data:null;base64,iQQD'' \<and>
   regex_exec dataURLRegex ''data:null;base64,iQQD'' = None \<and>
   isBase64DataURL string_of_int (JStr ''data:null;base64,iQQD'') JNull = Inr False \<and>
   processInput toy_env (FileHandler no_options) (Blob [137, 4, 3] ''null'') =
     Inr \<lparr> options = default_options, buffer = Some [137, 4, 3], mimeType = Some ''null'' \<rparr> \<and>
   toBase64URL \<lparr> options = default_options, buffer = Some [137, 4, 3], mimeType = Some ''null'' \<rparr> =
     toBase64URL \<lparr> options = default_options, buffer = Some [137, 4, 3], mimeType = None \<rparr> \<and>
   processInput toy_env (FileHandler no_options) (Blob [104, 105] ''text/plain;charset=utf-8'') =
     Inr \<lparr> options = default_options, buffer = Some [104, 105],
           mimeType = Some ''text/plain;charset=utf-8'' \<rparr> \<and>
   toBase64URL \<lparr> options = default_options, buffer = Some [104, 105],
                 mimeType = Some ''text/plain;charset=utf-8'' \<rparr> =
     Inr ''data:text/plain;charset=utf-8;base64,aGk='' \<and>
   regex_exec dataURLRegex ''data:text/plain;charset=utf-8;base64,aGk='' =
     Some [(3, ''aGk=''), (2, '';charset=utf-8''), (1, ''text/plain'')] \<and>
   processInput toy_env (FileHandler no_options) (Blob [104, 105] ''text/html; charset=utf-8'') =
     Inr \<lparr> options = default_options, buffer = Some [104, 105],
           mimeType = Some ''text/html; charset=utf-8'' \<rparr> \<and>
   toBase64URL \<lparr> options = default_options, buffer = Some [104, 105],
                 mimeType = Some ''text/html; charset=utf-8'' \<rparr> =
     Inr ''data:text/html; charset=utf-8;base64,aGk='' \<and>
   regex_exec dataURLRegex ''data:text/html; charset=utf-8;base64,aGk='' = None"
  by code_simp

text \<open>
  C9. The test vectors of the specification: \<open>isBase64\<close> rejects \<open>not base64!!\<close> and
  accepts \<open>aGVsbG8=\<close>; \<open>isBase64DataURL\<close> with the prefix \<open>image/\<close> accepts the data URL of
  type \<open>image/png\<close> and rejects the one of type \<open>text/plain\<close>.
\<close>

theorem classifier_test_vectors:
  "isBase64 (JStr ''not base64!!'') = False \<and>
   isBase64 (JStr ''aGVsbG8='') = True \<and>
   isBase64DataURL n2s (JStr ''data:image/png;base64,aGVsbG8='') (JStr ''image/'') = Inr True \<and>
   isBase64DataURL n2s (JStr ''data:text/plain;base64,aGVsbG8='') (JStr ''image/'') = Inr False"
  by code_simp

text \<open>
  C10. A field of the options whose value is falsy (\<open>0\<close>, \<open>false\<close>, the empty string,
  \<open>null\<close>, \<open>undefined\<close>, \<open>NaN\<close>) is replaced by its default: \<open>maxWidth\<close> and \<open>maxHeight\<close>
  by 500, \<open>quality\<close> by 90, \<open>format\<close> by \<open>jpeg\<close>, \<open>skipImageOptimization\<close> by \<open>false\<close>. So
  a quality of 0 becomes 90 and a \<open>maxWidth\<close> of 0 becomes 500.
\<close>

theorem constructor_defaults:
  "(\<not> truthy (maxWidth given) \<longrightarrow> maxWidth (options (FileHandler given)) = JNum 500) \<and>
   (\<not> truthy (maxHeight given) \<longrightarrow> maxHeight (options (FileHandler given)) = JNum 500) \<and>
   (\<not> truthy (quality given) \<longrightarrow> quality (options (FileHandler given)) = JNum 90) \<and>
   (\<not> truthy (options.format given) \<longrightarrow>
      options.format (options (FileHandler given)) = JStr ''jpeg'') \<and>
   (\<not> truthy (skipImageOptimization given) \<longrightarrow>
      skipImageOptimization (options (FileHandler given)) = JBool False)"
  by (simp add: FileHandler_def js_or_def)

theorem constructor_defaults_witness:
  "options (FileHandler \<lparr> maxWidth = JNum 0, maxHeight = JNull, quality = JNum 0,
                          format = JStr [], skipImageOptimization = JBool False \<rparr>) =
     \<lparr> maxWidth = JNum 500, maxHeight = JNum 500, quality = JNum 90, format = JStr ''jpeg'',
       skipImageOptimization = JBool False \<rparr>"
proof -
  let ?given = "\<lparr> maxWidth = JNum 0, maxHeight = JNull, quality = JNum 0,
                  format = JStr [], skipImageOptimization = JBool False \<rparr>"
  from constructor_defaults [of ?given]
  have "maxWidth (options (FileHandler ?given)) = JNum 500"
    and "maxHeight (options (FileHandler ?given)) = JNum 500"
    and "quality (options (FileHandler ?given)) = JNum 90"
    and "options.format (options (FileHandler ?given)) = JStr ''jpeg''"
    and "skipImageOptimization (options (FileHandler ?given)) = JBool False"
    by simp_all
  then show ?thesis
    by (cases "options (FileHandler ?given)") simp
qed

end
